theory Spec2Isabelle
  imports Complex_Main "HOL-Library.Multiset"
begin

section \<open>Numbers and configuration\<close>

text \<open>
  JavaScript numbers are modelled as exact reals. The planner is only called with finite
  numbers; a division by \<open>mpg\<close> is meaningful for \<open>0 < mpg\<close>, which the theorems that
  depend on it assume. A station price is the one field that the code itself treats as
  possibly missing (\<open>station.price || 3.00\<close>, \<open>a.price || 4\<close>, \<open>best.price?.toFixed\<close>),
  so it has three shapes: a number, \<open>null\<close>, or absent (\<open>undefined\<close>).
\<close>

datatype jsnum = Num real | Null | Undefined

text \<open>\<open>ToNumber\<close>: \<open>null\<close> becomes 0, \<open>undefined\<close> becomes NaN (here \<open>None\<close>).\<close>

fun toNumber :: "jsnum \<Rightarrow> real option" where
  "toNumber (Num x) = Some x"
| "toNumber Null = Some 0"
| "toNumber Undefined = None"

text \<open>\<open>p <= t\<close> and \<open>p > t\<close> for a number \<open>t\<close>: every comparison with NaN is false.\<close>

definition js_le :: "jsnum \<Rightarrow> real \<Rightarrow> bool" where
  "js_le p t = (case toNumber p of None \<Rightarrow> False | Some x \<Rightarrow> x \<le> t)"

definition js_gt :: "jsnum \<Rightarrow> real \<Rightarrow> bool" where
  "js_gt p t = (case toNumber p of None \<Rightarrow> False | Some x \<Rightarrow> x > t)"

text \<open>\<open>p || d\<close>: the falsy values \<open>null\<close>, \<open>undefined\<close> and \<open>0\<close> give \<open>d\<close>.\<close>

fun orDefault :: "jsnum \<Rightarrow> real \<Rightarrow> real" where
  "orDefault (Num x) d = (if x = 0 then d else x)"
| "orDefault Null d = d"
| "orDefault Undefined d = d"

text \<open>\<open>Math.round\<close> rounds halves towards plus infinity; \<open>Math.ceil\<close>.\<close>

definition js_round :: "real \<Rightarrow> real" where
  "js_round x = of_int \<lfloor>x + 1 / 2\<rfloor>"

definition js_ceil :: "real \<Rightarrow> real" where
  "js_ceil x = of_int \<lceil>x\<rceil>"

text \<open>\<open>parseFloat(x.toFixed(1))\<close>: one decimal, halves away from zero.\<close>

definition toFixed1 :: "real \<Rightarrow> real" where
  "toFixed1 x = (if x < 0 then - (of_int \<lfloor>- x * 10 + 1 / 2\<rfloor> / 10)
                 else of_int \<lfloor>x * 10 + 1 / 2\<rfloor> / 10)"

text \<open>The entries of \<open>CONFIG\<close> that the planner reads.\<close>

definition excellentThreshold :: real where "excellentThreshold = 295 / 100"
definition goodThreshold :: real where "goodThreshold = 330 / 100"
definition fairThreshold :: real where "fairThreshold = 360 / 100"
definition avgNationalPrice :: real where "avgNationalPrice = 375 / 100"
definition fullTankStates :: "string list" where "fullTankStates = [''CA'', ''WA'']"
definition destinationFuelTarget :: real where "destinationFuelTarget = 75 / 100"
definition minArrivalGallons :: real where "minArrivalGallons = 30"

section \<open>Data\<close>

text \<open>
  A station object. The corridor filter copies a station of the dataset and sets
  \<open>distanceFromStart\<close>, \<open>distanceFromRoute\<close> and \<open>routeIndex\<close>; the descriptive fields
  (name, address, exit, ...) play no part in planning and are left out.
\<close>

record station =
  stationId :: string
  state :: string
  lat :: real
  lng :: real
  price :: jsnum
  distanceFromStart :: real
  distanceFromRoute :: real
  routeIndex :: nat

record crossing =
  enteringState :: string
  borderDistance :: real
  firstStationInState :: station
  lastStationBeforeBorder :: "station option"

record routeData =
  coordinates :: "(real \<times> real) list"
  distance :: real
  duration :: real

text \<open>
  A stop record as \<open>createStopFromStation\<close> builds it. The fields copied unchanged from the
  station (chain, city, state, coordinates, ...) are kept as the station itself; \<open>time\<close>
  (a display string) and \<open>isFull\<close> (which reads the tank size from the page) are left out.
\<close>

record stop =
  number :: nat
  station :: station
  price_s :: real
  priceCategory :: string
  distance_s :: real
  gallonsToAdd :: real
  fuelRemaining :: real
  fillAmount :: real
  savings :: real

section \<open>Array.prototype.sort\<close>

text \<open>
  \<open>sort\<close> with a comparator is modelled as a stable insertion sort: \<open>a\<close> stays before \<open>b\<close>
  unless the comparator is positive. For a comparator that is consistent on the list every
  stable sort gives this result. The comparators below treat near values as ties and are
  not transitive; where they are inconsistent on a list of three or more elements the
  language leaves the order to the engine, and an engine may return another order than
  this function. The theorems therefore use only what holds of every engine: the result
  is a permutation of the list, and it is sorted when the comparator is consistent on the
  list. The examples that are evaluated have at most two candidates in a sort, or a
  comparator that is consistent on them.
\<close>

fun insertBy :: "('a \<Rightarrow> 'a \<Rightarrow> real) \<Rightarrow> 'a \<Rightarrow> 'a list \<Rightarrow> 'a list" where
  "insertBy cmp x [] = [x]"
| "insertBy cmp x (y # ys) = (if cmp x y \<le> 0 then x # y # ys else y # insertBy cmp x ys)"

fun sortBy :: "('a \<Rightarrow> 'a \<Rightarrow> real) \<Rightarrow> 'a list \<Rightarrow> 'a list" where
  "sortBy cmp [] = []"
| "sortBy cmp (x # xs) = insertBy cmp x (sortBy cmp xs)"

text \<open>\<open>xs[0]\<close>, with \<open>undefined\<close> (and so \<open>null\<close> after \<open>|| null\<close>) on the empty array.\<close>

fun first :: "'a list \<Rightarrow> 'a option" where
  "first [] = None"
| "first (x # xs) = Some x"

section \<open>Station selection\<close>

definition cmpBest :: "station \<Rightarrow> station \<Rightarrow> real" where
  "cmpBest a b =
     (let byRoute =
        (let routeDistDiff = distanceFromRoute a - distanceFromRoute b
         in if \<bar>routeDistDiff\<bar> > 1 / 2 then routeDistDiff
            else distanceFromStart b - distanceFromStart a)
      in case (toNumber (price a), toNumber (price b)) of
           (Some pa, Some pb) \<Rightarrow> if \<bar>pa - pb\<bar> \<ge> 5 / 100 then pa - pb else byRoute
         | _ \<Rightarrow> byRoute)"

definition inRange :: "real \<Rightarrow> real \<Rightarrow> string set \<Rightarrow> station \<Rightarrow> bool" where
  "inRange minDistance maxDistance usedStations s =
     (if stationId s \<in> usedStations then False
      else if distanceFromStart s < minDistance then False
      else if distanceFromStart s > maxDistance then False
      else True)"

definition findBestStationInRange ::
  "real \<Rightarrow> real \<Rightarrow> station list \<Rightarrow> string set \<Rightarrow> station option" where
  "findBestStationInRange minDistance maxDistance stations usedStations =
     (let reachableStations = filter (inRange minDistance maxDistance usedStations) stations
      in if length reachableStations = 0 then None
         else
           let excellent = filter (\<lambda>s. js_le (price s) excellentThreshold) reachableStations;
               good = filter (\<lambda>s. js_gt (price s) excellentThreshold \<and> js_le (price s) goodThreshold)
                        reachableStations;
               fair = filter (\<lambda>s. js_gt (price s) goodThreshold \<and> js_le (price s) fairThreshold)
                        reachableStations;
               high = filter (\<lambda>s. js_gt (price s) fairThreshold) reachableStations;
               candidates =
                 (if length excellent > 0 then excellent
                  else if length good > 0 then good
                  else if length fair > 0 then fair
                  else high)
           in first (sortBy cmpBest candidates))"

definition ahead :: "real \<Rightarrow> real \<Rightarrow> string set \<Rightarrow> station \<Rightarrow> bool" where
  "ahead currentPosition maxRange usedStations s =
     (if stationId s \<in> usedStations then False
      else if distanceFromStart s \<le> currentPosition then False
      else (let d = distanceFromStart s - currentPosition in d \<le> maxRange \<and> d > 0))"

definition cmpClosest :: "station \<Rightarrow> station \<Rightarrow> real" where
  "cmpClosest a b =
     (let distDiff = distanceFromStart a - distanceFromStart b
      in if \<bar>distDiff\<bar> > 10 then distDiff
         else distanceFromRoute a - distanceFromRoute b)"

definition findClosestReachableStation ::
  "real \<Rightarrow> real \<Rightarrow> station list \<Rightarrow> string set \<Rightarrow> station option" where
  "findClosestReachableStation currentPosition maxRange stations usedStations =
     first (sortBy cmpClosest (filter (ahead currentPosition maxRange usedStations) stations))"

definition cmpAny :: "station \<Rightarrow> station \<Rightarrow> real" where
  "cmpAny a b =
     (let priceDiff = orDefault (price a) 4 - orDefault (price b) 4
      in if \<bar>priceDiff\<bar> > 5 / 100 then priceDiff
         else
           let routeDistDiff = distanceFromRoute a - distanceFromRoute b
           in if \<bar>routeDistDiff\<bar> > 1 / 2 then routeDistDiff
              else distanceFromStart b - distanceFromStart a)"

definition findAnyReachableStation ::
  "real \<Rightarrow> real \<Rightarrow> station list \<Rightarrow> string set \<Rightarrow> station option" where
  "findAnyReachableStation currentPosition maxRange stations usedStations =
     first (sortBy cmpAny (filter (ahead currentPosition maxRange usedStations) stations))"

section \<open>Border crossings\<close>

text \<open>
  The scan of \<open>findStateBorderCrossings\<close> from index 1: \<open>seen\<close> holds the stations before
  the current one, nearest first, so the backward search for the last station outside the
  high-price states is a \<open>find\<close> on it.
\<close>

fun crossingsLoop :: "string list \<Rightarrow> station list \<Rightarrow> string \<Rightarrow> station list \<Rightarrow> crossing list" where
  "crossingsLoop highPriceStates seen previousState [] = []"
| "crossingsLoop highPriceStates seen previousState (st # rest) =
     (let currentState = state st
      in (if List.member highPriceStates currentState \<and> \<not> List.member highPriceStates previousState
          then [\<lparr> enteringState = currentState,
                  borderDistance = distanceFromStart st,
                  firstStationInState = st,
                  lastStationBeforeBorder =
                    find (\<lambda>s. \<not> List.member highPriceStates (state s)) seen \<rparr>]
          else [])
         @ crossingsLoop highPriceStates (st # seen) currentState rest)"

fun findStateBorderCrossings :: "station list \<Rightarrow> string list \<Rightarrow> crossing list" where
  "findStateBorderCrossings (s0 # s1 # rest) highPriceStates =
     crossingsLoop highPriceStates [s0] (state s0) (s1 # rest)"
| "findStateBorderCrossings stationsAlongRoute highPriceStates = []"

section \<open>Corridor filter\<close>

text \<open>
  \<open>haversineDistance\<close> is floating-point trigonometry; the filter is modelled over an
  arbitrary distance function \<open>hav\<close>. \<open>minDistance\<close> starts at \<open>Infinity\<close>, here \<open>None\<close>.
\<close>

fun nearestLoop ::
  "(real \<Rightarrow> real \<Rightarrow> real \<Rightarrow> real \<Rightarrow> real) \<Rightarrow> station \<Rightarrow> (real \<times> real) list \<Rightarrow> nat \<Rightarrow>
   real option \<Rightarrow> nat \<Rightarrow> real option \<times> nat" where
  "nearestLoop hav st [] i minDistance closestRouteIndex = (minDistance, closestRouteIndex)"
| "nearestLoop hav st (coord # rest) i minDistance closestRouteIndex =
     (let dist = hav (lat st) (lng st) (fst coord) (snd coord)
      in if (case minDistance of None \<Rightarrow> True | Some m \<Rightarrow> dist < m)
         then nearestLoop hav st rest (i + 1) (Some dist) i
         else nearestLoop hav st rest (i + 1) minDistance closestRouteIndex)"

definition routeBuffer :: real where "routeBuffer = 3"

text \<open>
  The annotated copy of a station, or nothing when it is farther than the buffer from
  every route point. With a single route point the source divides 0 by 0, which is not a
  number; the theorems about the annotation leave routes of a single point out.
\<close>

definition annotate ::
  "(real \<Rightarrow> real \<Rightarrow> real \<Rightarrow> real \<Rightarrow> real) \<Rightarrow> routeData \<Rightarrow> station \<Rightarrow> station option" where
  "annotate hav rd st =
     (case nearestLoop hav st (coordinates rd) 0 None 0 of
        (None, closestRouteIndex) \<Rightarrow> None
      | (Some minDistance, closestRouteIndex) \<Rightarrow>
          if minDistance \<le> routeBuffer
          then let routeProgress = real closestRouteIndex / (real (length (coordinates rd)) - 1);
                   dfs = routeProgress * distance rd
               in Some (st\<lparr> distanceFromStart := dfs,
                            distanceFromRoute := minDistance,
                            routeIndex := closestRouteIndex \<rparr>)
          else None)"

definition cmpRoute :: "station \<Rightarrow> station \<Rightarrow> real" where
  "cmpRoute a b =
     (let distDiff = distanceFromStart a - distanceFromStart b
      in if \<bar>distDiff\<bar> < 5 then distanceFromRoute a - distanceFromRoute b
         else distDiff)"

text \<open>\<open>dataset\<close> is the global \<open>state.stations\<close> (the empty list when it is unset).\<close>

definition findStationsAlongRoute ::
  "(real \<Rightarrow> real \<Rightarrow> real \<Rightarrow> real \<Rightarrow> real) \<Rightarrow> station list \<Rightarrow> routeData \<Rightarrow> station list" where
  "findStationsAlongRoute hav dataset rd =
     (if length dataset = 0 then []
      else sortBy cmpRoute (List.map_filter (annotate hav rd) dataset))"

section \<open>Stop records\<close>

definition priceCategoryOf :: "real \<Rightarrow> string" where
  "priceCategoryOf p =
     (if p \<le> excellentThreshold then ''excellent''
      else if p \<le> goodThreshold then ''good''
      else if p \<le> fairThreshold then ''fair''
      else ''high'')"

definition createStopFromStation :: "nat \<Rightarrow> station \<Rightarrow> real \<Rightarrow> real \<Rightarrow> real \<Rightarrow> stop" where
  "createStopFromStation stopNumber st gallons fillTo fuelArriving =
     (let p = orDefault (price st) 3
      in \<lparr> number = stopNumber,
           station = st,
           price_s = p,
           priceCategory = priceCategoryOf p,
           distance_s = js_round (distanceFromStart st),
           gallonsToAdd = gallons,
           fuelRemaining = toFixed1 fuelArriving,
           fillAmount = js_round fillTo,
           savings = max 0 (js_round ((avgNationalPrice - p) * gallons)) \<rparr>)"

section \<open>The planner\<close>

text \<open>
  What stays fixed during one call of \<open>calculateFuelStops\<close>: the stations along the
  route, the border crossings found among them, the route length and the vehicle.
\<close>

record env =
  stationsAlongRoute :: "station list"
  stateBorderCrossings :: "crossing list"
  totalDistance :: real
  tankSize :: real
  mpg :: real

text \<open>The variables that the loop changes.\<close>

record sim =
  currentFuel :: real
  currentPosition :: real
  usedStations :: "string set"
  stopsSoFar :: "stop list"

text \<open>
  The way one iteration of the loop ends. The label is not data of the program: it names
  the branch of the source that the iteration took, so that statements about single
  branches can be written down. \<open>EmergencyStop\<close> and \<open>EmergencyNone\<close> are the two ends of the
  block that calls \<open>findClosestReachableStation\<close>; \<open>NoStationReachable\<close> is the branch that
  logs \<open>No reachable station found\<close>.
\<close>

datatype branch =
    BorderStop | DestinationReachable | NearMissStop | NearMissNoStop
  | ExpandedStop | NoStationReachable | Discarded
  | EmergencyStop | EmergencyNone | StandardStop

text \<open>The branches that go round the loop again (\<open>continue\<close>, or the end of the body).\<close>

fun continues :: "branch \<Rightarrow> bool" where
  "continues BorderStop = True"
| "continues ExpandedStop = True"
| "continues Discarded = True"
| "continues EmergencyStop = True"
| "continues StandardStop = True"
| "continues b = False"

text \<open>The branches that push a stop.\<close>

fun commits :: "branch \<Rightarrow> bool" where
  "commits BorderStop = True"
| "commits NearMissStop = True"
| "commits ExpandedStop = True"
| "commits EmergencyStop = True"
| "commits StandardStop = True"
| "commits b = False"

definition targetFuelAtDestination :: "env \<Rightarrow> real" where
  "targetFuelAtDestination e = tankSize e * destinationFuelTarget"

definition usableRange :: "env \<Rightarrow> sim \<Rightarrow> real" where
  "usableRange e s = max 0 (currentFuel s - minArrivalGallons) * mpg e"

definition nextBorderCrossing :: "env \<Rightarrow> sim \<Rightarrow> crossing option" where
  "nextBorderCrossing e s =
     find (\<lambda>c. borderDistance c > currentPosition s \<and>
                (case lastStationBeforeBorder c of
                   None \<Rightarrow> False
                 | Some l \<Rightarrow> stationId l \<notin> usedStations s))
          (stateBorderCrossings e)"

text \<open>Priority 1: the new state when the border stop is taken, nothing otherwise.\<close>

definition borderPriority :: "env \<Rightarrow> sim \<Rightarrow> sim option" where
  "borderPriority e s =
     (case nextBorderCrossing e s of
        None \<Rightarrow> None
      | Some c \<Rightarrow>
          (case lastStationBeforeBorder c of
             None \<Rightarrow> None
           | Some l \<Rightarrow>
               let distanceToLastStation = distanceFromStart l - currentPosition s
               in if distanceToLastStation > 0 \<and> distanceToLastStation \<le> usableRange e s
                  then
                    let fuelUsedToStation = distanceToLastStation / mpg e;
                        fuelAtStation = currentFuel s - fuelUsedToStation;
                        gallons = max 0 (js_round (tankSize e - fuelAtStation))
                    in if gallons > 0
                       then Some (s\<lparr> stopsSoFar := stopsSoFar s @
                                        [createStopFromStation (length (stopsSoFar s) + 1) l gallons
                                           (tankSize e) fuelAtStation],
                                      usedStations := insert (stationId l) (usedStations s),
                                      currentFuel := tankSize e,
                                      currentPosition := distanceFromStart l \<rparr>)
                       else None
                  else None))"

text \<open>The branch for \<open>0 <= fuelAtDestination < target\<close>; it always leaves the loop.\<close>

definition nearMiss :: "env \<Rightarrow> sim \<Rightarrow> branch \<times> sim" where
  "nearMiss e s =
     (let finalSearchMax = min (currentPosition s + usableRange e s)
                               (currentPosition s + max (usableRange e s * (85 / 100)) 50)
      in case findBestStationInRange (currentPosition s) finalSearchMax
                (stationsAlongRoute e) (usedStations s) of
           None \<Rightarrow> (NearMissNoStop, s)
         | Some stationInRange \<Rightarrow>
             let distanceToStation = distanceFromStart stationInRange - currentPosition s;
                 fuelUsed = distanceToStation / mpg e;
                 fuelAtStation = currentFuel s - fuelUsed;
                 willEnterHighPriceState =
                   list_ex (\<lambda>c. borderDistance c > distanceFromStart stationInRange)
                     (stateBorderCrossings e);
                 fillTo =
                   (if willEnterHighPriceState \<or> List.member fullTankStates (state stationInRange)
                    then tankSize e
                    else
                      let distanceAfterStation = totalDistance e - distanceFromStart stationInRange;
                          fuelNeeded = distanceAfterStation / mpg e + targetFuelAtDestination e
                      in min (tankSize e) (js_ceil fuelNeeded + 5));
                 gallons = max 0 (js_round (fillTo - fuelAtStation))
             in if gallons > 0
                then (NearMissStop,
                      s\<lparr> stopsSoFar := stopsSoFar s @
                            [createStopFromStation (length (stopsSoFar s) + 1) stationInRange gallons
                               fillTo fuelAtStation],
                          usedStations := insert (stationId stationInRange) (usedStations s) \<rparr>)
                else (NearMissNoStop, s))"

text \<open>The rest of the body, for a destination that cannot be reached.\<close>

definition standardStop :: "env \<Rightarrow> sim \<Rightarrow> branch \<times> sim" where
  "standardStop e s =
     (let currentRange = currentFuel s * mpg e;
          safeRange = usableRange e s * (90 / 100);
          maxReachableDistance = currentPosition s + max safeRange 10
      in case findBestStationInRange (currentPosition s + 20) maxReachableDistance
                (stationsAlongRoute e) (usedStations s) of
           None \<Rightarrow>
             (case findAnyReachableStation (currentPosition s) (currentFuel s * mpg e * (95 / 100))
                     (stationsAlongRoute e) (usedStations s) of
                Some expandedStation \<Rightarrow>
                  let distToStation = distanceFromStart expandedStation - currentPosition s;
                      fuelAtStation = currentFuel s - distToStation / mpg e
                  in (ExpandedStop,
                      s\<lparr> stopsSoFar := stopsSoFar s @
                            [createStopFromStation (length (stopsSoFar s) + 1) expandedStation
                               (js_round (tankSize e - max 0 fuelAtStation)) (tankSize e)
                               (max 0 fuelAtStation)],
                          usedStations := insert (stationId expandedStation) (usedStations s),
                          currentFuel := tankSize e,
                          currentPosition := distanceFromStart expandedStation \<rparr>)
              | None \<Rightarrow> (NoStationReachable, s))
         | Some nextStation \<Rightarrow>
             let distanceToStation = distanceFromStart nextStation - currentPosition s;
                 fuelUsedToStation = distanceToStation / mpg e;
                 fuelAtStation = currentFuel s - fuelUsedToStation
             in if fuelAtStation < minArrivalGallons
                then (Discarded, s\<lparr> usedStations := insert (stationId nextStation) (usedStations s) \<rparr>)
                else if fuelAtStation < minArrivalGallons
                then
                  (case findClosestReachableStation (currentPosition s) (currentRange * (95 / 100))
                          (stationsAlongRoute e) (usedStations s) of
                     Some emergencyStation \<Rightarrow>
                       let distToEmergency = distanceFromStart emergencyStation - currentPosition s;
                           fuelAtEmergency = currentFuel s - distToEmergency / mpg e
                       in (EmergencyStop,
                           s\<lparr> stopsSoFar := stopsSoFar s @
                                 [createStopFromStation (length (stopsSoFar s) + 1) emergencyStation
                                    (js_round (tankSize e - fuelAtEmergency)) (tankSize e)
                                    fuelAtEmergency],
                               usedStations := insert (stationId emergencyStation) (usedStations s),
                               currentFuel := tankSize e,
                               currentPosition := distanceFromStart emergencyStation \<rparr>)
                   | None \<Rightarrow> (EmergencyNone, s))
                else
                  let fillTo = tankSize e;
                      gallons = max 0 (js_round (fillTo - fuelAtStation))
                  in (StandardStop,
                      s\<lparr> stopsSoFar := stopsSoFar s @
                            [createStopFromStation (length (stopsSoFar s) + 1) nextStation gallons
                               fillTo fuelAtStation],
                          usedStations := insert (stationId nextStation) (usedStations s),
                          currentFuel := fillTo,
                          currentPosition := distanceFromStart nextStation \<rparr>))"

definition fuelAtDestination :: "env \<Rightarrow> sim \<Rightarrow> real" where
  "fuelAtDestination e s = currentFuel s - (totalDistance e - currentPosition s) / mpg e"

text \<open>One pass through the body of the \<open>while\<close> loop.\<close>

definition loopBody :: "env \<Rightarrow> sim \<Rightarrow> branch \<times> sim" where
  "loopBody e s =
     (case borderPriority e s of
        Some s' \<Rightarrow> (BorderStop, s')
      | None \<Rightarrow>
          if fuelAtDestination e s \<ge> targetFuelAtDestination e then (DestinationReachable, s)
          else if fuelAtDestination e s \<ge> 0 \<and> fuelAtDestination e s < targetFuelAtDestination e
          then nearMiss e s
          else standardStop e s)"

text \<open>
  The ids that an iteration can add to \<open>usedStations\<close>: those of the stations along the
  route and of the stations named by the crossings.
\<close>

definition borderStations :: "env \<Rightarrow> station list" where
  "borderStations e =
     concat (map (\<lambda>c. case lastStationBeforeBorder c of None \<Rightarrow> [] | Some l \<Rightarrow> [l])
               (stateBorderCrossings e))"

definition unusedIds :: "env \<Rightarrow> sim \<Rightarrow> string set" where
  "unusedIds e s =
     set (map stationId (stationsAlongRoute e @ borderStations e)) - usedStations s"

subsection \<open>The loop\<close>

text \<open>
  Every selection function returns an unused station of the list it searched, and the
  border stop is taken at an unused station named by a crossing. So an iteration that goes
  round again removes one id from \<open>unusedIds\<close>, and the \<open>while\<close> loop is a total function.
\<close>

lemma set_insertBy: "set (insertBy cmp x xs) = insert x (set xs)"
  by (induction xs) auto

lemma set_sortBy: "set (sortBy cmp xs) = set xs"
  by (induction xs) (auto simp: set_insertBy)

lemma first_Some_mem: "first xs = Some x \<Longrightarrow> x \<in> set xs"
  by (cases xs) auto

lemma first_None_iff: "first xs = None \<longleftrightarrow> xs = []"
  by (cases xs) auto


lemma findBest_Some:
  assumes "findBestStationInRange a b xs u = Some st"
  shows "st \<in> set xs \<and> stationId st \<notin> u \<and> a \<le> distanceFromStart st \<and> distanceFromStart st \<le> b"
proof -
  let ?r = "filter (inRange a b u) xs"
  from assms have "st \<in> set ?r"
    by (auto simp: findBestStationInRange_def Let_def set_sortBy
        split: if_splits dest!: first_Some_mem)
  then show ?thesis
    by (auto simp: inRange_def split: if_splits)
qed

lemma ahead_Some:
  assumes "first (sortBy cmp (filter (ahead p r u) xs)) = Some st"
  shows "st \<in> set xs \<and> stationId st \<notin> u \<and> p < distanceFromStart st
         \<and> distanceFromStart st - p \<le> r"
proof -
  from assms have "st \<in> set (filter (ahead p r u) xs)"
    by (auto simp: set_sortBy dest!: first_Some_mem)
  then show ?thesis
    by (auto simp: ahead_def Let_def split: if_splits)
qed

lemmas findAny_Some = ahead_Some [of cmpAny, folded findAnyReachableStation_def]
lemmas findClosest_Some = ahead_Some [of cmpClosest, folded findClosestReachableStation_def]

lemma find_Some_mem: "find P xs = Some x \<Longrightarrow> x \<in> set xs \<and> P x"
  by (induction xs) (auto split: if_splits)

lemma borderPriority_Some:
  assumes "borderPriority e s = Some s'"
  shows "\<exists>c l. nextBorderCrossing e s = Some c \<and> lastStationBeforeBorder c = Some l
           \<and> c \<in> set (stateBorderCrossings e)
           \<and> stationId l \<notin> usedStations s
           \<and> currentPosition s < distanceFromStart l
           \<and> distanceFromStart l - currentPosition s \<le> usableRange e s
           \<and> currentPosition s < borderDistance c
           \<and> 0 < js_round (tankSize e - (currentFuel s - (distanceFromStart l - currentPosition s) / mpg e))
           \<and> s' = s\<lparr> stopsSoFar := stopsSoFar s @
                        [createStopFromStation (length (stopsSoFar s) + 1) l
                           (js_round (tankSize e - (currentFuel s - (distanceFromStart l - currentPosition s) / mpg e)))
                           (tankSize e) (currentFuel s - (distanceFromStart l - currentPosition s) / mpg e)],
                      usedStations := insert (stationId l) (usedStations s),
                      currentFuel := tankSize e,
                      currentPosition := distanceFromStart l \<rparr>"
proof -
  from assms obtain c where c: "nextBorderCrossing e s = Some c"
    by (auto simp: borderPriority_def split: option.splits)
  with assms obtain l where l: "lastStationBeforeBorder c = Some l"
    by (auto simp: borderPriority_def split: option.splits)
  from c have cm: "c \<in> set (stateBorderCrossings e)" "currentPosition s < borderDistance c"
     "stationId l \<notin> usedStations s"
    using l by (auto simp: nextBorderCrossing_def dest!: find_Some_mem)
  from assms c l show ?thesis using cm
    by (auto simp: borderPriority_def Let_def max_def split: if_splits)
qed


lemma borderStations_mem:
  "c \<in> set (stateBorderCrossings e) \<Longrightarrow> lastStationBeforeBorder c = Some l
   \<Longrightarrow> l \<in> set (borderStations e)"
  by (force simp: borderStations_def)

lemma nearMiss_not_continues: "\<not> continues (fst (nearMiss e s))"
  by (simp add: nearMiss_def Let_def split: option.splits)

lemma standardStop_continues:
  assumes "standardStop e s = (b, s')" and "continues b"
  shows "\<exists>st \<in> set (stationsAlongRoute e). stationId st \<notin> usedStations s
           \<and> usedStations s' = insert (stationId st) (usedStations s)"
proof (cases "findBestStationInRange (currentPosition s + 20)
                (currentPosition s + max (usableRange e s * (90 / 100)) 10)
                (stationsAlongRoute e) (usedStations s)")
  case None
  show ?thesis
  proof (cases "findAnyReachableStation (currentPosition s) (currentFuel s * mpg e * (95 / 100))
                  (stationsAlongRoute e) (usedStations s)")
    case n: None
    with None assms show ?thesis by (simp add: standardStop_def Let_def)
  next
    case (Some x)
    from findAny_Some [OF Some] None Some assms show ?thesis
      by (auto simp: standardStop_def Let_def)
  qed
next
  case (Some n)
  from findBest_Some [OF Some] Some assms show ?thesis
    by (auto simp: standardStop_def Let_def split: if_splits)
qed

lemma loopBody_continues:
  assumes "loopBody e s = (b, s')" and "continues b"
  shows "\<exists>i \<in> unusedIds e s. usedStations s' = insert i (usedStations s)"
proof (cases "borderPriority e s")
  case (Some t)
  with assms have "s' = t" by (simp add: loopBody_def)
  with borderPriority_Some [OF Some] obtain c l where
    "c \<in> set (stateBorderCrossings e)" "lastStationBeforeBorder c = Some l"
    "stationId l \<notin> usedStations s" "usedStations s' = insert (stationId l) (usedStations s)"
    by auto
  then show ?thesis
    using borderStations_mem [of c e l] by (auto simp: unusedIds_def)
next
  case None
  from assms None nearMiss_not_continues [of e s]
  have "standardStop e s = (b, s')"
    by (auto simp: loopBody_def split: if_splits)
  from standardStop_continues [OF this assms(2)] show ?thesis
    by (auto simp: unusedIds_def)
qed

lemma unusedIds_decreases:
  assumes "loopBody e s = (b, s')" and "continues b"
  shows "card (unusedIds e s') < card (unusedIds e s)"
proof -
  from loopBody_continues [OF assms] obtain i where
    i: "i \<in> unusedIds e s" "usedStations s' = insert i (usedStations s)" by auto
  then have "unusedIds e s' = unusedIds e s - {i}"
    by (auto simp: unusedIds_def)
  moreover have "finite (unusedIds e s)"
    by (simp add: unusedIds_def)
  ultimately show ?thesis using i(1)
    by (metis card_Diff1_less)
qed

function loop :: "env \<Rightarrow> sim \<Rightarrow> branch list \<times> sim" where
  "loop e s =
     (if currentPosition s < totalDistance e
      then (if continues (fst (loopBody e s))
            then (let r = loop e (snd (loopBody e s))
                  in (fst (loopBody e s) # fst r, snd r))
            else ([fst (loopBody e s)], snd (loopBody e s)))
      else ([], s))"
  by pat_completeness auto
termination
proof (relation "measure (\<lambda>(e, s). card (unusedIds e s))")
  show "wf (measure (\<lambda>(e, s). card (unusedIds e s)))" by simp
next
  fix e s
  assume "currentPosition s < totalDistance e" and c: "continues (fst (loopBody e s))"
  have "loopBody e s = (fst (loopBody e s), snd (loopBody e s))" by simp
  from unusedIds_decreases [OF this c]
  show "((e, snd (loopBody e s)), (e, s)) \<in> measure (\<lambda>(e, s). card (unusedIds e s))"
    by simp
qed

declare loop.simps [simp del]

lemma loop_exit: "\<not> currentPosition s < totalDistance e \<Longrightarrow> loop e s = ([], s)"
  by (simp add: loop.simps)

lemma loop_break:
  "currentPosition s < totalDistance e \<Longrightarrow> \<not> continues (fst (loopBody e s))
   \<Longrightarrow> loop e s = ([fst (loopBody e s)], snd (loopBody e s))"
  by (simp add: loop.simps)

lemma loop_continue:
  "currentPosition s < totalDistance e \<Longrightarrow> continues (fst (loopBody e s))
   \<Longrightarrow> loop e s = (fst (loopBody e s) # fst (loop e (snd (loopBody e s))),
                           snd (loop e (snd (loopBody e s))))"
  by (simp add: loop.simps Let_def)

subsection \<open>calculateFuelStops\<close>

record plan =
  stops :: "stop list"
  finalFuel :: real

definition planEnv :: "station list \<Rightarrow> real \<Rightarrow> real \<Rightarrow> real \<Rightarrow> env" where
  "planEnv stations routeMiles tank milesPerGallon =
     \<lparr> stationsAlongRoute = stations,
       stateBorderCrossings = findStateBorderCrossings stations fullTankStates,
       totalDistance = routeMiles,
       tankSize = tank,
       mpg = milesPerGallon \<rparr>"

definition initialSim :: "real \<Rightarrow> sim" where
  "initialSim currentGallons =
     \<lparr> currentFuel = currentGallons, currentPosition = 0, usedStations = {}, stopsSoFar = [] \<rparr>"

text \<open>The two statements after the loop, and the returned object.\<close>

definition finish :: "env \<Rightarrow> sim \<Rightarrow> plan" where
  "finish e s =
     (let calculatedFinalFuel = currentFuel s - (totalDistance e - currentPosition s) / mpg e
      in \<lparr> stops = stopsSoFar s,
           finalFuel = max (targetFuelAtDestination e) calculatedFinalFuel \<rparr>)"

text \<open>
  \<open>calculateFuelStops\<close> from the point where the stations along the route are known, and
  the branches its loop takes, in order.
\<close>

definition calculateFuelStopsFrom :: "station list \<Rightarrow> real \<Rightarrow> real \<Rightarrow> real \<Rightarrow> real \<Rightarrow> plan" where
  "calculateFuelStopsFrom stations routeMiles currentGallons tank milesPerGallon =
     finish (planEnv stations routeMiles tank milesPerGallon)
       (snd (loop (planEnv stations routeMiles tank milesPerGallon) (initialSim currentGallons)))"

definition planTrace :: "station list \<Rightarrow> real \<Rightarrow> real \<Rightarrow> real \<Rightarrow> real \<Rightarrow> branch list" where
  "planTrace stations routeMiles currentGallons tank milesPerGallon =
     fst (loop (planEnv stations routeMiles tank milesPerGallon) (initialSim currentGallons))"

definition calculateFuelStops ::
  "(real \<Rightarrow> real \<Rightarrow> real \<Rightarrow> real \<Rightarrow> real) \<Rightarrow> station list \<Rightarrow> routeData \<Rightarrow> real \<Rightarrow> real \<Rightarrow> real \<Rightarrow> plan" where
  "calculateFuelStops hav dataset rd currentGallons tank milesPerGallon =
     calculateFuelStopsFrom (findStationsAlongRoute hav dataset rd) (distance rd)
       currentGallons tank milesPerGallon"

subsection \<open>Examples\<close>

text \<open>
  A stand-in for the great-circle distance in examples: the sum of the differences in
  latitude and longitude.
\<close>

definition taxicab :: "real \<Rightarrow> real \<Rightarrow> real \<Rightarrow> real \<Rightarrow> real" where
  "taxicab lat1 lon1 lat2 lon2 = \<bar>lat1 - lat2\<bar> + \<bar>lon1 - lon2\<bar>"

definition emptyRoute :: routeData where
  "emptyRoute = \<lparr> coordinates = [], distance = 0, duration = 0 \<rparr>"

text \<open>
  An example run: with 60 gallons a station 300 miles ahead is only found by the expanded
  search; from there the destination is within reach but below the target, and the
  near-miss branch adds a second stop.
\<close>

definition stationA :: station where
  "stationA = \<lparr> stationId = ''csv-1'', state = ''TX'', lat = 0, lng = 0, price = Num 3,
                distanceFromStart = 300, distanceFromRoute = 1, routeIndex = 3 \<rparr>"

definition stationB :: station where
  "stationB = \<lparr> stationId = ''csv-2'', state = ''NM'', lat = 0, lng = 0, price = Num (31 / 10),
                distanceFromStart = 800, distanceFromRoute = 1, routeIndex = 8 \<rparr>"

lemma example_trace:
  "planTrace [stationA, stationB] 1500 60 200 10 = [ExpandedStop, NearMissStop]"
  by code_simp

lemma example_stops:
  "map (\<lambda>x. (number x, stationId (station x), gallonsToAdd x, fuelRemaining x))
     (stops (calculateFuelStopsFrom [stationA, stationB] 1500 60 200 10))
   = [(1, ''csv-1'', 170, 30), (2, ''csv-2'', 50, 150)]"
  by code_simp

section \<open>Reasoning about the loop\<close>

text \<open>
  An invariant of the body, together with a property of the branch each iteration takes,
  holds of the final state and of every branch of the run.
\<close>

lemma loop_rule:
  assumes "I s"
    and "\<And>s. I s \<Longrightarrow> currentPosition s < totalDistance e
           \<Longrightarrow> I (snd (loopBody e s)) \<and> Q (fst (loopBody e s))"
  shows "I (snd (loop e s)) \<and> list_all Q (fst (loop e s))"
  using assms
proof (induction e s rule: loop.induct)
  case (1 e s)
  show ?case
  proof (cases "currentPosition s < totalDistance e")
    case False
    with 1 show ?thesis by (simp add: loop_exit)
  next
    case True
    note step = "1.prems"(2) [OF "1.prems"(1) True]
    show ?thesis
    proof (cases "continues (fst (loopBody e s))")
      case False
      with True step show ?thesis by (simp add: loop_break)
    next
      case c: True
      from "1.IH" [OF True c _ "1.prems"(2)] step have
        "I (snd (loop e (snd (loopBody e s)))) \<and> list_all Q (fst (loop e (snd (loopBody e s))))"
        by simp
      with True c step show ?thesis by (simp add: loop_continue)
    qed
  qed
qed

text \<open>
  The same with an invariant that only the iterations that go round again keep, and a
  conclusion about the state in which the loop ends.
\<close>

lemma loop_post:
  assumes "I s"
    and "\<And>s. I s \<Longrightarrow> currentPosition s < totalDistance e
           \<Longrightarrow> continues (fst (loopBody e s)) \<Longrightarrow> I (snd (loopBody e s))"
    and "\<And>s. I s \<Longrightarrow> currentPosition s < totalDistance e
           \<Longrightarrow> \<not> continues (fst (loopBody e s)) \<Longrightarrow> R (snd (loopBody e s))"
    and "\<And>s. I s \<Longrightarrow> \<not> currentPosition s < totalDistance e \<Longrightarrow> R s"
  shows "R (snd (loop e s))"
  using assms
proof (induction e s rule: loop.induct)
  case (1 e s)
  show ?case
  proof (cases "currentPosition s < totalDistance e")
    case False
    with "1.prems"(4) [OF "1.prems"(1)] show ?thesis by (simp add: loop_exit)
  next
    case True
    show ?thesis
    proof (cases "continues (fst (loopBody e s))")
      case False
      with True "1.prems"(3) [OF "1.prems"(1) True] show ?thesis by (simp add: loop_break)
    next
      case c: True
      from "1.IH" [OF True c "1.prems"(2) [OF "1.prems"(1) True c] "1.prems"(2,3,4)]
      have "R (snd (loop e (snd (loopBody e s))))" by simp
      with True c show ?thesis by (simp add: loop_continue)
    qed
  qed
qed

section \<open>What one iteration does\<close>

text \<open>The fuel left on arrival at a station, from the current state.\<close>

definition arrivalFuel :: "env \<Rightarrow> sim \<Rightarrow> station \<Rightarrow> real" where
  "arrivalFuel e s st = currentFuel s - (distanceFromStart st - currentPosition s) / mpg e"

lemma nearMiss_shape:
  assumes "nearMiss e s = (b, s')"
  shows "(b = NearMissNoStop \<and> s' = s) \<or>
         (b = NearMissStop \<and>
          (\<exists>st fillTo. st \<in> set (stationsAlongRoute e) \<and> stationId st \<notin> usedStations s
             \<and> currentPosition s \<le> distanceFromStart st
             \<and> distanceFromStart st \<le> currentPosition s + usableRange e s
             \<and> fillTo \<le> tankSize e
             \<and> 0 < js_round (fillTo - arrivalFuel e s st)
             \<and> s' = s\<lparr> stopsSoFar := stopsSoFar s @
                          [createStopFromStation (length (stopsSoFar s) + 1) st
                             (js_round (fillTo - arrivalFuel e s st)) fillTo (arrivalFuel e s st)],
                        usedStations := insert (stationId st) (usedStations s) \<rparr>))"
proof (cases "findBestStationInRange (currentPosition s)
                (min (currentPosition s + usableRange e s)
                     (currentPosition s + max (usableRange e s * (85 / 100)) 50))
                (stationsAlongRoute e) (usedStations s)")
  case None
  with assms show ?thesis by (simp add: nearMiss_def Let_def)
next
  case (Some st)
  note m = findBest_Some [OF Some]
  show ?thesis
  proof (cases "b = NearMissNoStop")
    case True
    with assms Some show ?thesis
      by (auto simp: nearMiss_def Let_def split: if_splits)
  next
    case False
    with assms Some m show ?thesis
      apply (simp add: nearMiss_def Let_def arrivalFuel_def split: if_splits)
       apply (rule exI [of _ st], simp)
       apply (rule exI [of _ "tankSize e"], simp add: max_def split: if_splits)
      apply (rule exI [of _ st], simp)
      apply (rule exI [of _ "min (tankSize e) (js_ceil ((totalDistance e - distanceFromStart st) / mpg e + targetFuelAtDestination e) + 5)"])
      apply (simp add: max_def split: if_splits)
      done
  qed
qed


lemma standardStop_shape:
  assumes "standardStop e s = (b, s')"
  shows "(b = NoStationReachable \<and> s' = s) \<or>
         (b = Discarded \<and>
          (\<exists>st. st \<in> set (stationsAlongRoute e) \<and> stationId st \<notin> usedStations s
             \<and> arrivalFuel e s st < minArrivalGallons
             \<and> s' = s\<lparr> usedStations := insert (stationId st) (usedStations s) \<rparr>)) \<or>
         (b = ExpandedStop \<and>
          (\<exists>st. st \<in> set (stationsAlongRoute e) \<and> stationId st \<notin> usedStations s
             \<and> currentPosition s < distanceFromStart st
             \<and> distanceFromStart st - currentPosition s \<le> currentFuel s * mpg e * (95 / 100)
             \<and> s' = s\<lparr> stopsSoFar := stopsSoFar s @
                          [createStopFromStation (length (stopsSoFar s) + 1) st
                             (js_round (tankSize e - max 0 (arrivalFuel e s st))) (tankSize e)
                             (max 0 (arrivalFuel e s st))],
                        usedStations := insert (stationId st) (usedStations s),
                        currentFuel := tankSize e,
                        currentPosition := distanceFromStart st \<rparr>)) \<or>
         (b = StandardStop \<and>
          (\<exists>st. st \<in> set (stationsAlongRoute e) \<and> stationId st \<notin> usedStations s
             \<and> currentPosition s + 20 \<le> distanceFromStart st
             \<and> minArrivalGallons \<le> arrivalFuel e s st
             \<and> s' = s\<lparr> stopsSoFar := stopsSoFar s @
                          [createStopFromStation (length (stopsSoFar s) + 1) st
                             (max 0 (js_round (tankSize e - arrivalFuel e s st))) (tankSize e)
                             (arrivalFuel e s st)],
                        usedStations := insert (stationId st) (usedStations s),
                        currentFuel := tankSize e,
                        currentPosition := distanceFromStart st \<rparr>))"
proof (cases "findBestStationInRange (currentPosition s + 20)
                (currentPosition s + max (usableRange e s * (90 / 100)) 10)
                (stationsAlongRoute e) (usedStations s)")
  case None
  show ?thesis
  proof (cases "findAnyReachableStation (currentPosition s) (currentFuel s * mpg e * (95 / 100))
                  (stationsAlongRoute e) (usedStations s)")
    case n: None
    with None assms show ?thesis by (simp add: standardStop_def Let_def)
  next
    case (Some x)
    from findAny_Some [OF Some] None Some assms show ?thesis
      by (auto simp: standardStop_def Let_def arrivalFuel_def)
  qed
next
  case (Some n)
  from findBest_Some [OF Some] Some assms show ?thesis
    by (auto simp: standardStop_def Let_def arrivalFuel_def split: if_splits)
qed

lemma loopBody_cases:
  assumes "loopBody e s = (b, s')"
  shows "(b = BorderStop \<and> borderPriority e s = Some s') \<or>
         (b = DestinationReachable \<and> s' = s \<and> borderPriority e s = None
            \<and> targetFuelAtDestination e \<le> fuelAtDestination e s) \<or>
         (nearMiss e s = (b, s') \<and> borderPriority e s = None
            \<and> 0 \<le> fuelAtDestination e s \<and> fuelAtDestination e s < targetFuelAtDestination e) \<or>
         (standardStop e s = (b, s') \<and> borderPriority e s = None
            \<and> fuelAtDestination e s < targetFuelAtDestination e \<and> fuelAtDestination e s < 0)"
  using assms by (auto simp: loopBody_def split: option.splits if_splits)

lemma createStop_simps [simp]:
  "station (createStopFromStation n st g f a) = st"
  "number (createStopFromStation n st g f a) = n"
  "fuelRemaining (createStopFromStation n st g f a) = toFixed1 a"
  "gallonsToAdd (createStopFromStation n st g f a) = g"
  "fillAmount (createStopFromStation n st g f a) = js_round f"
  by (simp_all add: createStopFromStation_def Let_def)

lemma js_round_pos: "0 < js_round y \<Longrightarrow> 1 / 2 \<le> y"
proof -
  assume "0 < js_round y"
  then have "1 \<le> \<lfloor>y + 1 / 2\<rfloor>" by (simp add: js_round_def)
  then have "1 \<le> y + 1 / 2" by linarith
  then show ?thesis by simp
qed

text \<open>What a committing iteration does to the state.\<close>

lemma loopBody_commit:
  assumes "loopBody e s = (b, s')" and "commits b"
  shows "\<exists>x. stopsSoFar s' = stopsSoFar s @ [x]
           \<and> number x = length (stopsSoFar s) + 1
           \<and> stationId (station x) \<notin> usedStations s
           \<and> usedStations s' = insert (stationId (station x)) (usedStations s)
           \<and> currentPosition s \<le> distanceFromStart (station x)
           \<and> (b = NearMissStop \<and> arrivalFuel e s (station x) < tankSize e
              \<or> continues b \<and> currentPosition s < distanceFromStart (station x)
                \<and> currentFuel s' = tankSize e
                \<and> currentPosition s' = distanceFromStart (station x))"
proof -
  from loopBody_cases [OF assms(1)] consider
    (border) "b = BorderStop" "borderPriority e s = Some s'"
    | (dest) "b = DestinationReachable"
    | (near) "nearMiss e s = (b, s')"
    | (std) "standardStop e s = (b, s')"
    by blast
  then show ?thesis
  proof cases
    case border
    from borderPriority_Some [OF border(2)] border(1) show ?thesis
      by auto
  next
    case dest
    with assms(2) show ?thesis by simp
  next
    case near
    from nearMiss_shape [OF near] assms(2) obtain st fillTo where
      st: "b = NearMissStop" "stationId st \<notin> usedStations s"
        "currentPosition s \<le> distanceFromStart st" "fillTo \<le> tankSize e"
        "0 < js_round (fillTo - arrivalFuel e s st)"
        "s' = s\<lparr> stopsSoFar := stopsSoFar s @
                   [createStopFromStation (length (stopsSoFar s) + 1) st
                      (js_round (fillTo - arrivalFuel e s st)) fillTo (arrivalFuel e s st)],
                 usedStations := insert (stationId st) (usedStations s) \<rparr>"
      by auto
    from js_round_pos [OF st(5)] st(4) have "arrivalFuel e s st < tankSize e" by simp
    with st show ?thesis by simp
  next
    case std
    from standardStop_shape [OF std] assms(2) show ?thesis
      by (elim disjE exE conjE) simp_all
  qed
qed

text \<open>What an iteration that commits nothing does to the state.\<close>

lemma loopBody_no_commit:
  assumes "loopBody e s = (b, s')" and "\<not> commits b"
  shows "stopsSoFar s' = stopsSoFar s \<and> currentFuel s' = currentFuel s
         \<and> currentPosition s' = currentPosition s \<and> usedStations s \<subseteq> usedStations s'"
proof -
  from loopBody_cases [OF assms(1)] consider
    (border) "b = BorderStop"
    | (dest) "s' = s"
    | (near) "nearMiss e s = (b, s')"
    | (std) "standardStop e s = (b, s')"
    by blast
  then show ?thesis
  proof cases
    case border
    with assms(2) show ?thesis by simp
  next
    case dest
    then show ?thesis by simp
  next
    case near
    from nearMiss_shape [OF near] assms(2) show ?thesis by auto
  next
    case std
    from standardStop_shape [OF std] assms(2) show ?thesis by auto
  qed
qed

section \<open>Degenerate route\<close>

text \<open>
  C5 (as amended). For a route of length zero (and a positive fuel economy) the loop is
  not entered: the stop list is empty and the final fuel is the larger of the caller's
  current fuel and the target of three quarters of the tank.
\<close>

theorem degenerate_route:
  assumes "distance rd = 0" and "0 < milesPerGallon"
  shows "calculateFuelStops hav dataset rd currentGallons tank milesPerGallon =
           \<lparr> stops = [], finalFuel = max (tank * destinationFuelTarget) currentGallons \<rparr>"
  using assms
  by (simp add: calculateFuelStops_def calculateFuelStopsFrom_def loop_exit
      planEnv_def initialSim_def finish_def targetFuelAtDestination_def)

theorem degenerate_route_witness:
  "distance emptyRoute = 0 \<and> (0::real) < 10 \<and>
   calculateFuelStops taxicab [] emptyRoute 120 100 10 = \<lparr> stops = [], finalFuel = 120 \<rparr>"
  using degenerate_route [where rd = emptyRoute and hav = taxicab and dataset = "[]"
      and currentGallons = 120 and tank = 100 and milesPerGallon = 10]
  by (simp add: destinationFuelTarget_def emptyRoute_def)

text \<open>
  With half a tank on a route of length zero the reported final fuel is 75, not the 50
  gallons the caller supplied.
\<close>

theorem degenerate_route_counterexample:
  "distance emptyRoute = 0 \<and>
   finalFuel (calculateFuelStops taxicab [] emptyRoute 50 100 10) = 75 \<and>
   finalFuel (calculateFuelStops taxicab [] emptyRoute 50 100 10) \<noteq> 50"
  by code_simp

section \<open>The closest-reachable fallback\<close>

text \<open>
  The test \<open>fuelAtStation < CONFIG.minArrivalGallons\<close> stands twice in a row in the
  source. The first ends the iteration, so the block under the second, the only caller of
  \<open>findClosestReachableStation\<close>, is never entered.
\<close>

lemma standardStop_no_emergency:
  "fst (standardStop e s) \<noteq> EmergencyStop \<and> fst (standardStop e s) \<noteq> EmergencyNone"
  by (simp add: standardStop_def Let_def split: option.splits)

lemma nearMiss_branch:
  "fst (nearMiss e s) = NearMissStop \<or> fst (nearMiss e s) = NearMissNoStop"
  by (simp add: nearMiss_def Let_def split: option.splits)

lemma loopBody_no_emergency:
  "fst (loopBody e s) \<noteq> EmergencyStop \<and> fst (loopBody e s) \<noteq> EmergencyNone"
  using standardStop_no_emergency [of e s] nearMiss_branch [of e s]
  by (auto simp: loopBody_def split: option.splits)

text \<open>
  C10. For every input, no iteration of the planning loop ends in the block that calls
  \<open>findClosestReachableStation\<close>: neither with an emergency stop nor with its \<open>break\<close>.
\<close>

theorem closest_reachable_never_called:
  "EmergencyStop \<notin> set (planTrace stations routeMiles currentGallons tank milesPerGallon) \<and>
   EmergencyNone \<notin> set (planTrace stations routeMiles currentGallons tank milesPerGallon)"
proof -
  let ?e = "planEnv stations routeMiles tank milesPerGallon"
  have "True \<and> list_all (\<lambda>b. b \<noteq> EmergencyStop \<and> b \<noteq> EmergencyNone)
          (fst (loop ?e (initialSim currentGallons)))"
    by (rule loop_rule [where I = "\<lambda>s. True"]) (simp_all add: loopBody_no_emergency)
  then show ?thesis
    by (auto simp: planTrace_def list_all_iff)
qed

theorem closest_reachable_never_called_witness:
  "EmergencyStop \<notin> set (planTrace [] 250 10 100 10) \<and>
   EmergencyNone \<notin> set (planTrace [] 250 10 100 10)"
  using closest_reachable_never_called [of "[]" 250 10 100 10] by simp

section \<open>No duplicate stops\<close>

definition stopIds :: "sim \<Rightarrow> string list" where
  "stopIds s = map (\<lambda>x. stationId (station x)) (stopsSoFar s)"

lemma loopBody_stopIds:
  assumes "distinct (stopIds s) \<and> set (stopIds s) \<subseteq> usedStations s"
  shows "distinct (stopIds (snd (loopBody e s)))
         \<and> set (stopIds (snd (loopBody e s))) \<subseteq> usedStations (snd (loopBody e s))"
proof (cases "commits (fst (loopBody e s))")
  case True
  from loopBody_commit [OF surjective_pairing True] assms show ?thesis
    by (auto simp: stopIds_def image_subset_iff)
next
  case False
  from loopBody_no_commit [OF surjective_pairing False] assms show ?thesis
    by (auto simp: stopIds_def)
qed

text \<open>
  C3. In every planning run no station id occurs twice among the stations of the output
  stops: every commit takes a station whose id is not in \<open>usedStations\<close> and adds the id.
\<close>

theorem no_duplicate_stops:
  "distinct (map (\<lambda>x. stationId (station x))
     (stops (calculateFuelStopsFrom stations routeMiles currentGallons tank milesPerGallon)))"
proof -
  let ?e = "planEnv stations routeMiles tank milesPerGallon"
  let ?I = "\<lambda>s. distinct (stopIds s) \<and> set (stopIds s) \<subseteq> usedStations s"
  have "?I (initialSim currentGallons)"
    by (simp add: stopIds_def initialSim_def)
  then have "?I (snd (loop ?e (initialSim currentGallons)))
             \<and> list_all (\<lambda>b. True) (fst (loop ?e (initialSim currentGallons)))"
    by (rule loop_rule) (use loopBody_stopIds in blast)
  then show ?thesis
    by (simp add: calculateFuelStopsFrom_def finish_def stopIds_def)
qed

theorem no_duplicate_stops_witness:
  "distinct (map (\<lambda>x. stationId (station x))
     (stops (calculateFuelStopsFrom [stationA, stationB] 1500 60 200 10)))"
  using no_duplicate_stops [of "[stationA, stationB]" 1500 60 200 10] by simp

section \<open>Monotonic progress\<close>

text \<open>The invariant for the order of the stops.\<close>

definition stopsOrdered :: "sim \<Rightarrow> bool" where
  "stopsOrdered s =
     (map number (stopsSoFar s) = [1 ..< length (stopsSoFar s) + 1]
      \<and> sorted_wrt (<) (map (\<lambda>x. distanceFromStart (station x)) (stopsSoFar s)))"

definition stopsBehind :: "env \<Rightarrow> sim \<Rightarrow> bool" where
  "stopsBehind e s =
     (list_all (\<lambda>x. distanceFromStart (station x) \<le> currentPosition s) (stopsSoFar s)
      \<and> (stopsSoFar s = [] \<or> currentFuel s = tankSize e))"

lemma loopBody_ordered:
  assumes "0 < mpg e" and "stopsOrdered s" and "stopsBehind e s"
  shows "stopsOrdered (snd (loopBody e s))
         \<and> (continues (fst (loopBody e s)) \<longrightarrow> stopsBehind e (snd (loopBody e s)))"
proof (cases "commits (fst (loopBody e s))")
  case False
  from loopBody_no_commit [OF surjective_pairing False] assms show ?thesis
    by (auto simp: stopsOrdered_def stopsBehind_def)
next
  case True
  from loopBody_commit [OF surjective_pairing True] obtain x where
    x: "stopsSoFar (snd (loopBody e s)) = stopsSoFar s @ [x]"
       "number x = length (stopsSoFar s) + 1"
       "currentPosition s \<le> distanceFromStart (station x)"
       "fst (loopBody e s) = NearMissStop \<and> arrivalFuel e s (station x) < tankSize e
        \<or> continues (fst (loopBody e s)) \<and> currentPosition s < distanceFromStart (station x)
          \<and> currentFuel (snd (loopBody e s)) = tankSize e
          \<and> currentPosition (snd (loopBody e s)) = distanceFromStart (station x)"
    by auto
  have strict: "stopsSoFar s \<noteq> [] \<Longrightarrow> currentPosition s < distanceFromStart (station x)"
  proof -
    assume ne: "stopsSoFar s \<noteq> []"
    with assms(3) have full: "currentFuel s = tankSize e" by (simp add: stopsBehind_def)
    from x(4) show ?thesis
    proof
      assume "fst (loopBody e s) = NearMissStop \<and> arrivalFuel e s (station x) < tankSize e"
      with full have "0 < (distanceFromStart (station x) - currentPosition s) / mpg e"
        by (simp add: arrivalFuel_def)
      with assms(1) show ?thesis by (simp add: zero_less_divide_iff)
    qed simp
  qed
  have behind: "\<forall>y \<in> set (stopsSoFar s). distanceFromStart (station y) < distanceFromStart (station x)"
  proof
    fix y assume y: "y \<in> set (stopsSoFar s)"
    then have "stopsSoFar s \<noteq> []" by auto
    from strict [OF this] y assms(3) show "distanceFromStart (station y) < distanceFromStart (station x)"
      by (auto simp: stopsBehind_def list_all_iff)
  qed
  have ord: "stopsOrdered (snd (loopBody e s))"
    using assms(2) x(1,2) behind
    by (auto simp: stopsOrdered_def sorted_wrt_append)
  have "continues (fst (loopBody e s)) \<longrightarrow> stopsBehind e (snd (loopBody e s))"
  proof
    assume c: "continues (fst (loopBody e s))"
    with x(4) have "currentFuel (snd (loopBody e s)) = tankSize e"
       "currentPosition (snd (loopBody e s)) = distanceFromStart (station x)" by auto
    with x(1) behind show "stopsBehind e (snd (loopBody e s))"
      by (auto simp: stopsBehind_def list_all_iff less_imp_le)
  qed
  with ord show ?thesis by simp
qed

text \<open>
  C9. For a positive fuel economy the stops of every planning run are numbered 1, 2, 3, ...
  in order, and each stop lies strictly farther along the route than the one before it. A
  near-miss stop at the current position would need fuel added to a tank that the stop
  before has just filled, so it is not committed.
\<close>

theorem monotonic_progress:
  assumes "0 < milesPerGallon"
  shows "map number (stops (calculateFuelStopsFrom stations routeMiles currentGallons tank milesPerGallon))
           = [1 ..< length (stops (calculateFuelStopsFrom stations routeMiles currentGallons tank milesPerGallon)) + 1]
         \<and> sorted_wrt (<) (map (\<lambda>x. distanceFromStart (station x))
             (stops (calculateFuelStopsFrom stations routeMiles currentGallons tank milesPerGallon)))"
proof -
  let ?e = "planEnv stations routeMiles tank milesPerGallon"
  have m: "0 < mpg ?e" using assms by (simp add: planEnv_def)
  have "stopsOrdered (snd (loop ?e (initialSim currentGallons)))"
  proof (rule loop_post [where I = "\<lambda>s. stopsOrdered s \<and> stopsBehind ?e s"])
    show "stopsOrdered (initialSim currentGallons) \<and> stopsBehind ?e (initialSim currentGallons)"
      by (simp add: stopsOrdered_def stopsBehind_def initialSim_def)
  qed (use loopBody_ordered [OF m] in blast)+
  then show ?thesis
    by (simp add: calculateFuelStopsFrom_def finish_def stopsOrdered_def)
qed

theorem monotonic_progress_witness:
  "(0::real) < 10 \<and>
   map number (stops (calculateFuelStopsFrom [stationA, stationB] 1500 60 200 10))
     = [1 ..< length (stops (calculateFuelStopsFrom [stationA, stationB] 1500 60 200 10)) + 1]
   \<and> sorted_wrt (<) (map (\<lambda>x. distanceFromStart (station x))
        (stops (calculateFuelStopsFrom [stationA, stationB] 1500 60 200 10)))"
  using monotonic_progress [of 10 "[stationA, stationB]" 1500 60 200] by simp

section \<open>Termination\<close>

text \<open>
  \<open>loop\<close> is a total function, and its first component lists the iterations of a run. An
  iteration that goes round again uses up the id of one station, so a run has at most one
  iteration per station and one more that leaves the loop.
\<close>

lemma loop_length: "length (fst (loop e s)) \<le> card (unusedIds e s) + 1"
proof (induction e s rule: loop.induct)
  case (1 e s)
  show ?case
  proof (cases "currentPosition s < totalDistance e")
    case False
    then show ?thesis by (simp add: loop_exit)
  next
    case True
    show ?thesis
    proof (cases "continues (fst (loopBody e s))")
      case False
      with True show ?thesis by (simp add: loop_break)
    next
      case c: True
      from unusedIds_decreases [OF surjective_pairing c]
      have "card (unusedIds e (snd (loopBody e s))) < card (unusedIds e s)" .
      with "1.IH" [OF True c] True c show ?thesis by (simp add: loop_continue)
    qed
  qed
qed

lemma crossingsLoop_last:
  "c \<in> set (crossingsLoop hp seen prev rest) \<Longrightarrow> lastStationBeforeBorder c = Some l
   \<Longrightarrow> l \<in> set seen \<union> set rest"
proof (induction rest arbitrary: seen prev)
  case Nil
  then show ?case by simp
next
  case (Cons st rest)
  from Cons.prems show ?case
    by (auto simp: Let_def split: if_splits dest: find_Some_mem Cons.IH)
qed

lemma findStateBorderCrossings_last:
  assumes "c \<in> set (findStateBorderCrossings xs hp)" and "lastStationBeforeBorder c = Some l"
  shows "l \<in> set xs"
proof (cases xs)
  case Nil
  with assms show ?thesis by simp
next
  case (Cons s0 ys)
  show ?thesis
  proof (cases ys)
    case Nil
    with Cons assms show ?thesis by simp
  next
    case (Cons s1 rest)
    with \<open>xs = s0 # ys\<close> assms crossingsLoop_last [of c hp "[s0]" "state s0" "s1 # rest" l]
    show ?thesis by auto
  qed
qed

lemma borderStations_planEnv:
  "set (borderStations (planEnv xs rm t m)) \<subseteq> set xs"
  by (auto simp: borderStations_def planEnv_def split: option.splits
      dest: findStateBorderCrossings_last [OF _ sym])

lemma unusedIds_planEnv: "card (unusedIds (planEnv xs rm t m) (initialSim g)) \<le> length xs"
proof -
  have "unusedIds (planEnv xs rm t m) (initialSim g) \<subseteq> stationId ` set xs"
    using borderStations_planEnv [of xs rm t m]
    by (auto simp: unusedIds_def initialSim_def planEnv_def)
  then have "card (unusedIds (planEnv xs rm t m) (initialSim g)) \<le> card (stationId ` set xs)"
    by (simp add: card_mono)
  also have "\<dots> \<le> card (set xs)" by (simp add: card_image_le)
  also have "\<dots> \<le> length xs" by (rule card_length)
  finally show ?thesis .
qed

text \<open>
  C6 (as amended). The loop of every planning run ends after at most one iteration more
  than there are stations along the route, and every iteration that does not leave the loop
  adds an id to \<open>usedStations\<close> that was not in it.
\<close>

theorem planning_terminates:
  "length (planTrace stations routeMiles currentGallons tank milesPerGallon) \<le> length stations + 1
   \<and> (continues (fst (loopBody e s)) \<longrightarrow>
        (\<exists>i. i \<notin> usedStations s \<and> usedStations (snd (loopBody e s)) = insert i (usedStations s)))"
proof
  show "length (planTrace stations routeMiles currentGallons tank milesPerGallon) \<le> length stations + 1"
    using loop_length [of "planEnv stations routeMiles tank milesPerGallon" "initialSim currentGallons"]
      unusedIds_planEnv [of stations routeMiles tank milesPerGallon currentGallons]
    by (simp add: planTrace_def)
next
  show "continues (fst (loopBody e s)) \<longrightarrow>
        (\<exists>i. i \<notin> usedStations s \<and> usedStations (snd (loopBody e s)) = insert i (usedStations s))"
    using loopBody_continues [OF surjective_pairing, of e s]
    by (auto simp: unusedIds_def)
qed

theorem planning_terminates_witness:
  "length (planTrace [stationA, stationB] 1500 60 200 10) \<le> length [stationA, stationB] + 1
   \<and> continues (fst (loopBody (planEnv [stationA, stationB] 1500 200 10) (initialSim 60)))
   \<and> (\<exists>i. i \<notin> usedStations (initialSim 60)
          \<and> usedStations (snd (loopBody (planEnv [stationA, stationB] 1500 200 10) (initialSim 60)))
              = insert i (usedStations (initialSim 60)))"
proof -
  have c: "continues (fst (loopBody (planEnv [stationA, stationB] 1500 200 10) (initialSim 60)))"
    by code_simp
  with planning_terminates [of "[stationA, stationB]" 1500 60 200 10
      "planEnv [stationA, stationB] 1500 200 10" "initialSim 60"]
  show ?thesis by simp
qed

text \<open>
  With no station and a full tank the body runs once, to find the destination within
  reach; the station count plus the number of stops is zero.
\<close>

theorem planning_terminates_counterexample:
  "length (planTrace [] 100 100 100 10) = 1 \<and>
   length ([] :: station list) + length (stops (calculateFuelStopsFrom [] 100 100 100 10)) = 0"
  by code_simp

section \<open>Failure halt\<close>

lemma loop_failure:
  "fst (loop e s) \<noteq> [] \<Longrightarrow> last (fst (loop e s)) = NoStationReachable
   \<Longrightarrow> fuelAtDestination e (snd (loop e s)) < 0"
proof (induction e s rule: loop.induct)
  case (1 e s)
  show ?case
  proof (cases "currentPosition s < totalDistance e")
    case False
    with "1.prems" show ?thesis by (simp add: loop_exit)
  next
    case True
    show ?thesis
    proof (cases "continues (fst (loopBody e s))")
      case False
      with True "1.prems" have b: "fst (loopBody e s) = NoStationReachable"
        by (simp add: loop_break)
      from loopBody_cases [OF surjective_pairing, of e s] b
      have "standardStop e s = (NoStationReachable, snd (loopBody e s))" "fuelAtDestination e s < 0"
        using nearMiss_branch [of e s] by auto
      with standardStop_shape [OF this(1)] True False show ?thesis
        by (simp add: loop_break)
    next
      case c: True
      have "fst (loop e (snd (loopBody e s))) \<noteq> []"
      proof
        assume "fst (loop e (snd (loopBody e s))) = []"
        with "1.prems" True c show False by (auto simp: loop_continue)
      qed
      moreover from this "1.prems" True c
      have "last (fst (loop e (snd (loopBody e s)))) = NoStationReachable"
        by (simp add: loop_continue)
      ultimately show ?thesis
        using "1.IH" [OF True c] True c by (simp add: loop_continue)
    qed
  qed
qed

text \<open>
  C4 (as amended). When the loop stops because no station can be reached, the returned
  object holds the stops committed so far and a final fuel equal to the target of three
  quarters of the tank. It has no other field: the failure is only logged.
\<close>

theorem failure_halt:
  assumes "0 < milesPerGallon" and "0 \<le> tank"
    and "planTrace stations routeMiles currentGallons tank milesPerGallon \<noteq> []"
    and "last (planTrace stations routeMiles currentGallons tank milesPerGallon) = NoStationReachable"
  shows "calculateFuelStopsFrom stations routeMiles currentGallons tank milesPerGallon =
           \<lparr> stops = stopsSoFar (snd (loop (planEnv stations routeMiles tank milesPerGallon)
                                         (initialSim currentGallons))),
             finalFuel = tank * destinationFuelTarget \<rparr>"
proof -
  let ?e = "planEnv stations routeMiles tank milesPerGallon"
  from loop_failure [of ?e "initialSim currentGallons"] assms(3,4)
  have "fuelAtDestination ?e (snd (loop ?e (initialSim currentGallons))) < 0"
    by (simp add: planTrace_def)
  moreover have "0 \<le> targetFuelAtDestination ?e"
    using assms(2) by (simp add: targetFuelAtDestination_def planEnv_def destinationFuelTarget_def)
  ultimately show ?thesis
    by (simp add: calculateFuelStopsFrom_def finish_def fuelAtDestination_def max_def
        targetFuelAtDestination_def planEnv_def)
qed

theorem failure_halt_witness:
  "(0::real) < 10 \<and> (0::real) \<le> 200
   \<and> planTrace [stationA] 5000 60 200 10 \<noteq> []
   \<and> last (planTrace [stationA] 5000 60 200 10) = NoStationReachable
   \<and> calculateFuelStopsFrom [stationA] 5000 60 200 10 =
        \<lparr> stops = stopsSoFar (snd (loop (planEnv [stationA] 5000 200 10) (initialSim 60))),
          finalFuel = 200 * destinationFuelTarget \<rparr>"
proof -
  have t: "planTrace [stationA] 5000 60 200 10 = [ExpandedStop, NoStationReachable]"
    by code_simp
  with failure_halt [of 10 200 "[stationA]" 5000 60] show ?thesis by simp
qed

text \<open>
  Two runs without stations on a route of 250 miles, tank 100, 10 miles per gallon. With a
  full tank the destination is reached with exactly the target of 75 gallons; with 10
  gallons no station is reachable. Both return the same object.
\<close>

theorem failure_halt_counterexample:
  "planTrace [] 250 100 100 10 = [DestinationReachable] \<and>
   planTrace [] 250 10 100 10 = [NoStationReachable] \<and>
   calculateFuelStopsFrom [] 250 100 100 10 = \<lparr> stops = [], finalFuel = 75 \<rparr> \<and>
   calculateFuelStopsFrom [] 250 10 100 10 = \<lparr> stops = [], finalFuel = 75 \<rparr>"
  by code_simp

section \<open>Arrival reserve\<close>

lemma toFixed1_nonneg: "0 \<le> x \<Longrightarrow> 0 \<le> toFixed1 x"
  by (simp add: toFixed1_def)

lemma toFixed1_reserve: "minArrivalGallons \<le> x \<Longrightarrow> minArrivalGallons \<le> toFixed1 x"
proof -
  assume "minArrivalGallons \<le> x"
  then have x: "30 \<le> x" by (simp add: minArrivalGallons_def)
  then have "(300::int) \<le> \<lfloor>x * 10 + 1 / 2\<rfloor>" by linarith
  then have "(300::real) \<le> of_int \<lfloor>x * 10 + 1 / 2\<rfloor>" by linarith
  with x show ?thesis by (simp add: toFixed1_def minArrivalGallons_def)
qed

lemma within_usableRange:
  assumes "0 < mpg e" and "d \<le> usableRange e s"
  shows "min (currentFuel s) minArrivalGallons \<le> currentFuel s - d / mpg e"
proof -
  from assms have "d / mpg e \<le> max 0 (currentFuel s - minArrivalGallons)"
    by (simp add: usableRange_def pos_divide_le_eq)
  then show ?thesis by (simp add: max_def min_def split: if_splits)
qed

lemma border_arrival:
  assumes "0 < mpg e" and "0 < d" and "d \<le> usableRange e s"
  shows "minArrivalGallons \<le> currentFuel s - d / mpg e"
proof -
  have "minArrivalGallons < currentFuel s"
  proof (rule ccontr)
    assume "\<not> minArrivalGallons < currentFuel s"
    then have "usableRange e s = 0" by (simp add: usableRange_def max_def)
    with assms show False by simp
  qed
  with within_usableRange [OF assms(1,3)] show ?thesis by (simp add: min_def)
qed

lemma loopBody_arrival:
  assumes "0 < mpg e" and "currentPosition s < totalDistance e" and "commits (fst (loopBody e s))"
  shows "\<exists>x. stopsSoFar (snd (loopBody e s)) = stopsSoFar s @ [x] \<and> 0 \<le> fuelRemaining x
           \<and> (fst (loopBody e s) = StandardStop \<or> fst (loopBody e s) = BorderStop
                \<longrightarrow> minArrivalGallons \<le> fuelRemaining x)"
proof -
  let ?b = "fst (loopBody e s)" and ?s' = "snd (loopBody e s)"
  have r30: "0 \<le> minArrivalGallons" by (simp add: minArrivalGallons_def)
  from loopBody_cases [OF surjective_pairing, of e s] consider
    (border) "?b = BorderStop" "borderPriority e s = Some ?s'"
    | (dest) "?b = DestinationReachable"
    | (near) "nearMiss e s = (?b, ?s')" "0 \<le> fuelAtDestination e s"
    | (std) "standardStop e s = (?b, ?s')"
    by blast
  then show ?thesis
  proof cases
    case border
    from borderPriority_Some [OF border(2)] obtain l where
      l: "currentPosition s < distanceFromStart l"
         "distanceFromStart l - currentPosition s \<le> usableRange e s"
         "stopsSoFar ?s' = stopsSoFar s @
            [createStopFromStation (length (stopsSoFar s) + 1) l
               (js_round (tankSize e - (currentFuel s - (distanceFromStart l - currentPosition s) / mpg e)))
               (tankSize e) (currentFuel s - (distanceFromStart l - currentPosition s) / mpg e)]"
      by (elim exE conjE) simp
    from border_arrival [OF assms(1) _ l(2)] l(1)
    have "minArrivalGallons \<le> currentFuel s - (distanceFromStart l - currentPosition s) / mpg e"
      by simp
    from toFixed1_reserve [OF this] r30 l(3) show ?thesis by simp
  next
    case dest
    with assms(3) show ?thesis by simp
  next
    case near
    from nearMiss_shape [OF near(1)] assms(3) obtain st fillTo where
      st: "distanceFromStart st \<le> currentPosition s + usableRange e s"
          "?b = NearMissStop"
          "?s' = s\<lparr> stopsSoFar := stopsSoFar s @
                   [createStopFromStation (length (stopsSoFar s) + 1) st
                      (js_round (fillTo - arrivalFuel e s st)) fillTo (arrivalFuel e s st)],
                 usedStations := insert (stationId st) (usedStations s) \<rparr>"
      by auto
    from near(2) assms(1,2) have "0 \<le> currentFuel s"
    proof -
      have "0 \<le> (totalDistance e - currentPosition s) / mpg e"
        using assms(1,2) by simp
      with near(2) show ?thesis by (simp add: fuelAtDestination_def)
    qed
    moreover from within_usableRange [OF assms(1), of "distanceFromStart st - currentPosition s" s] st(1)
    have "min (currentFuel s) minArrivalGallons \<le> arrivalFuel e s st"
      by (simp add: arrivalFuel_def)
    ultimately have "0 \<le> arrivalFuel e s st" using r30 by (simp add: min_def split: if_splits)
    from toFixed1_nonneg [OF this] st(2) show ?thesis by (simp add: st(3))
  next
    case std
    from standardStop_shape [OF std] assms(3) show ?thesis
      using toFixed1_reserve toFixed1_nonneg r30
      by (elim disjE exE conjE; simp)
  qed
qed

lemma loop_arrival:
  assumes "0 < mpg e"
  shows "\<exists>new. stopsSoFar (snd (loop e s)) = stopsSoFar s @ new
           \<and> list_all2 (\<lambda>b x. 0 \<le> fuelRemaining x
                 \<and> (b = StandardStop \<or> b = BorderStop \<longrightarrow> minArrivalGallons \<le> fuelRemaining x))
               (filter commits (fst (loop e s))) new"
  using assms
proof (induction e s rule: loop.induct)
  case (1 e s)
  let ?P = "\<lambda>b x. 0 \<le> fuelRemaining x
              \<and> (b = StandardStop \<or> b = BorderStop \<longrightarrow> minArrivalGallons \<le> fuelRemaining x)"
  let ?b = "fst (loopBody e s)" and ?s' = "snd (loopBody e s)"
  show ?case
  proof (cases "currentPosition s < totalDistance e")
    case False
    then show ?thesis by (simp add: loop_exit)
  next
    case True
    have step: "\<exists>one. stopsSoFar ?s' = stopsSoFar s @ one
                 \<and> list_all2 ?P (filter commits [?b]) one"
    proof (cases "commits ?b")
      case c: True
      from loopBody_arrival [OF "1.prems" True c] c show ?thesis by auto
    next
      case False
      from loopBody_no_commit [OF surjective_pairing False] False show ?thesis by simp
    qed
    show ?thesis
    proof (cases "continues ?b")
      case False
      with True step show ?thesis by (simp add: loop_break)
    next
      case c: True
      from "1.IH" [OF True c "1.prems"] obtain new where
        new: "stopsSoFar (snd (loop e ?s')) = stopsSoFar ?s' @ new"
             "list_all2 ?P (filter commits (fst (loop e ?s'))) new"
        by blast
      from step obtain one where
        one: "stopsSoFar ?s' = stopsSoFar s @ one" "list_all2 ?P (filter commits [?b]) one"
        by blast
      from one(2) new(2) have "list_all2 ?P (filter commits ([?b] @ fst (loop e ?s'))) (one @ new)"
        unfolding filter_append by (rule list_all2_appendI)
      with new(1) one(1) True c show ?thesis
        by (simp add: loop_continue)
    qed
  qed
qed


lemma standardStop_not_discarded: "fst (standardStop e s) \<noteq> Discarded"
proof (cases "findBestStationInRange (currentPosition s + 20)
                (currentPosition s + max (usableRange e s * (90 / 100)) 10)
                (stationsAlongRoute e) (usedStations s)")
  case None
  then show ?thesis by (simp add: standardStop_def Let_def split: option.splits)
next
  case (Some n)
  let ?d = "distanceFromStart n - currentPosition s"
  from findBest_Some [OF Some] have d: "20 \<le> ?d" "?d \<le> max (usableRange e s * (90 / 100)) 10"
    by auto
  then have u: "?d \<le> usableRange e s * (90 / 100)" by (simp add: max_def split: if_splits)
  with d(1) have upos: "0 < usableRange e s" by simp
  have m: "0 < mpg e"
  proof (rule ccontr)
    assume "\<not> 0 < mpg e"
    then have "usableRange e s \<le> 0"
      by (simp add: usableRange_def mult_nonneg_nonpos)
    with upos show False by simp
  qed
  have f: "minArrivalGallons < currentFuel s"
  proof (rule ccontr)
    assume "\<not> minArrivalGallons < currentFuel s"
    then have "usableRange e s = 0" by (simp add: usableRange_def max_def)
    with upos show False by simp
  qed
  define q where "q = ?d / mpg e"
  from f have "usableRange e s = (currentFuel s - minArrivalGallons) * mpg e"
    by (simp add: usableRange_def max_def)
  with u have "?d \<le> ((currentFuel s - minArrivalGallons) * (90 / 100)) * mpg e"
    by (simp add: mult.commute mult.left_commute)
  with m have "q \<le> (currentFuel s - minArrivalGallons) * (90 / 100)"
    unfolding q_def by (simp only: pos_divide_le_eq)
  with f have "minArrivalGallons \<le> currentFuel s - q"
    by (simp add: minArrivalGallons_def)
  then have "\<not> currentFuel s - ?d / mpg e < minArrivalGallons"
    unfolding q_def by simp
  with Some show ?thesis
    by (simp add: standardStop_def Let_def)
qed

lemma loopBody_not_discarded: "fst (loopBody e s) \<noteq> Discarded"
  using standardStop_not_discarded [of e s] nearMiss_branch [of e s]
  by (auto simp: loopBody_def split: option.splits)

lemma loop_not_discarded: "Discarded \<notin> set (fst (loop e s))"
proof -
  have "True \<and> list_all (\<lambda>b. b \<noteq> Discarded) (fst (loop e s))"
    by (rule loop_rule [where I = "\<lambda>s. True"]) (simp_all add: loopBody_not_discarded)
  then show ?thesis by (auto simp: list_all_iff)
qed

text \<open>
  C2 (as amended). For a positive fuel economy, every stop of a planning run records a
  fuel on arrival of at least 0, and every stop committed by the standard price-priority
  selection or by the border rule one of at least 30 gallons. The window of the standard
  search ends at 90 percent of the usable range, so the test that would discard a station
  for arriving under 30 gallons never fires. Stops of the expanded search are excepted:
  they may arrive with less than 30 gallons.
\<close>

theorem arrival_reserve:
  assumes "0 < milesPerGallon"
  shows "list_all2 (\<lambda>b x. 0 \<le> fuelRemaining x
              \<and> (b = StandardStop \<or> b = BorderStop \<longrightarrow> minArrivalGallons \<le> fuelRemaining x))
           (filter commits (planTrace stations routeMiles currentGallons tank milesPerGallon))
           (stops (calculateFuelStopsFrom stations routeMiles currentGallons tank milesPerGallon))
         \<and> Discarded \<notin> set (planTrace stations routeMiles currentGallons tank milesPerGallon)"
proof -
  let ?e = "planEnv stations routeMiles tank milesPerGallon"
  have m: "0 < mpg ?e" using assms by (simp add: planEnv_def)
  from loop_arrival [OF m, of "initialSim currentGallons"] loop_not_discarded [of ?e]
  show ?thesis
    by (auto simp: planTrace_def calculateFuelStopsFrom_def finish_def initialSim_def)
qed

text \<open>A run with a standard stop (arriving with 70 gallons) and a near-miss stop.\<close>

lemma reserve_example_trace:
  "planTrace [stationA, stationB] 2000 100 200 10 = [StandardStop, NearMissStop]"
  by code_simp

lemma reserve_example_arrival:
  "map fuelRemaining (stops (calculateFuelStopsFrom [stationA, stationB] 2000 100 200 10)) = [70, 150]"
  by code_simp

theorem arrival_reserve_witness:
  "(0::real) < 10
   \<and> list_all2 (\<lambda>b x. 0 \<le> fuelRemaining x
              \<and> (b = StandardStop \<or> b = BorderStop \<longrightarrow> minArrivalGallons \<le> fuelRemaining x))
        (filter commits (planTrace [stationA, stationB] 2000 100 200 10))
        (stops (calculateFuelStopsFrom [stationA, stationB] 2000 100 200 10))
   \<and> Discarded \<notin> set (planTrace [stationA, stationB] 2000 100 200 10)"
  using arrival_reserve [of 10 "[stationA, stationB]" 2000 100 200] by simp

text \<open>
  With 40 gallons and the only station 300 miles ahead, the expanded search commits a stop
  that is reached with 10 gallons.
\<close>

theorem arrival_reserve_counterexample:
  "planTrace [stationA] 1000 40 200 10 = [ExpandedStop, NearMissNoStop]
   \<and> map fuelRemaining (stops (calculateFuelStopsFrom [stationA] 1000 40 200 10)) = [10]
   \<and> (10::real) < minArrivalGallons"
  by code_simp

section \<open>Border priority\<close>

text \<open>
  In a list in ascending order of \<open>distanceFromStart\<close> the last station before a border
  is not farther along the route than the first station behind it.
\<close>

lemma crossingsLoop_before:
  assumes "\<forall>a \<in> set seen. \<forall>b \<in> set rest. distanceFromStart a \<le> distanceFromStart b"
    and "sorted (map distanceFromStart rest)"
    and "c \<in> set (crossingsLoop hp seen prev rest)"
    and "lastStationBeforeBorder c = Some l"
  shows "distanceFromStart l \<le> borderDistance c"
  using assms
proof (induction rest arbitrary: seen prev)
  case Nil
  then show ?case by simp
next
  case (Cons st rest)
  show ?case
  proof (cases "c \<in> set (crossingsLoop hp (st # seen) (state st) rest)")
    case True
    show ?thesis
    proof (rule Cons.IH [OF _ _ True Cons.prems(4)])
      show "\<forall>a \<in> set (st # seen). \<forall>b \<in> set rest. distanceFromStart a \<le> distanceFromStart b"
        using Cons.prems(1,2) by auto
      show "sorted (map distanceFromStart rest)"
        using Cons.prems(2) by simp
    qed
  next
    case False
    with Cons.prems(3) have c: "borderDistance c = distanceFromStart st"
      "lastStationBeforeBorder c = find (\<lambda>s. \<not> List.member hp (state s)) seen"
      by (auto simp: Let_def split: if_splits)
    with Cons.prems(4) have "l \<in> set seen"
      by (auto dest: find_Some_mem)
    with Cons.prems(1) c(1) show ?thesis by simp
  qed
qed

lemma findStateBorderCrossings_before:
  assumes "sorted (map distanceFromStart xs)"
    and "c \<in> set (findStateBorderCrossings xs hp)"
    and "lastStationBeforeBorder c = Some l"
  shows "distanceFromStart l \<le> borderDistance c"
proof (cases xs)
  case Nil
  with assms show ?thesis by simp
next
  case (Cons s0 ys)
  show ?thesis
  proof (cases ys)
    case Nil
    with Cons assms show ?thesis by simp
  next
    case c2: (Cons s1 rest)
    show ?thesis
    proof (rule crossingsLoop_before [of "[s0]" "s1 # rest" c hp "state s0" l])
      show "\<forall>a \<in> set [s0]. \<forall>b \<in> set (s1 # rest). distanceFromStart a \<le> distanceFromStart b"
        using assms(1) Cons c2 by auto
      show "sorted (map distanceFromStart (s1 # rest))"
        using assms(1) Cons c2 by simp
      show "c \<in> set (crossingsLoop hp [s0] (state s0) (s1 # rest))"
        using assms(2) Cons c2 by simp
    qed (rule assms(3))
  qed
qed

lemma nextBorderCrossing_mem:
  "nextBorderCrossing e s = Some c \<Longrightarrow> c \<in> set (stateBorderCrossings e)"
  by (auto simp: nextBorderCrossing_def dest: find_Some_mem)

text \<open>Stations around a border into California, for the examples.\<close>

definition stationN90 :: station where
  "stationN90 = \<lparr> stationId = ''csv-90'', state = ''NV'', lat = 0, lng = 0, price = Num (425 / 100),
                  distanceFromStart = 90, distanceFromRoute = 1, routeIndex = 9 \<rparr>"

definition stationC100 :: station where
  "stationC100 = \<lparr> stationId = ''csv-100'', state = ''CA'', lat = 0, lng = 0, price = Num (485 / 100),
                   distanceFromStart = 100, distanceFromRoute = 1, routeIndex = 10 \<rparr>"

definition stationN3 :: station where
  "stationN3 = \<lparr> stationId = ''csv-3'', state = ''NV'', lat = 0, lng = 0, price = Num (425 / 100),
                 distanceFromStart = 3, distanceFromRoute = 1, routeIndex = 1 \<rparr>"

definition stationN103 :: station where
  "stationN103 = \<lparr> stationId = ''csv-103'', state = ''NV'', lat = 0, lng = 0, price = Num (425 / 100),
                   distanceFromStart = 103, distanceFromRoute = 1 / 10, routeIndex = 10 \<rparr>"

definition stationC100far :: station where
  "stationC100far = \<lparr> stationId = ''csv-101'', state = ''CA'', lat = 0, lng = 0, price = Num (485 / 100),
                   distanceFromStart = 100, distanceFromRoute = 2, routeIndex = 10 \<rparr>"

definition borderCrossing :: "station \<Rightarrow> station \<Rightarrow> crossing" where
  "borderCrossing l st = \<lparr> enteringState = state st, borderDistance = distanceFromStart st,
       firstStationInState = st, lastStationBeforeBorder = Some l \<rparr>"

text \<open>
  C1 (as amended). Let the fuel economy be positive, and take the first crossing ahead
  whose last station before the border is set and unused. When that station lies ahead
  within the usable range and the tank would take at least half a gallon there
  (\<open>gallonsToAdd\<close> rounds to more than 0), the iteration commits a stop at it that fills
  the tank and moves on to it; whether the destination is within reach is not looked at.
  The stop is not beyond the border distance when the stations along the route are in
  ascending order of \<open>distanceFromStart\<close>.
\<close>

theorem border_priority:
  assumes "0 < mpg e"
    and "nextBorderCrossing e s = Some c"
    and "lastStationBeforeBorder c = Some l"
    and "0 < distanceFromStart l - currentPosition s"
    and "distanceFromStart l - currentPosition s \<le> usableRange e s"
    and "0 < js_round (tankSize e - arrivalFuel e s l)"
  shows "loopBody e s =
           (BorderStop,
            s\<lparr> stopsSoFar := stopsSoFar s @
                  [createStopFromStation (length (stopsSoFar s) + 1) l
                     (js_round (tankSize e - arrivalFuel e s l)) (tankSize e) (arrivalFuel e s l)],
                usedStations := insert (stationId l) (usedStations s),
                currentFuel := tankSize e,
                currentPosition := distanceFromStart l \<rparr>)
         \<and> (sorted (map distanceFromStart (stationsAlongRoute e))
              \<and> stateBorderCrossings e = findStateBorderCrossings (stationsAlongRoute e) fullTankStates
              \<longrightarrow> distanceFromStart l \<le> borderDistance c)"
proof
  show "loopBody e s =
           (BorderStop,
            s\<lparr> stopsSoFar := stopsSoFar s @
                  [createStopFromStation (length (stopsSoFar s) + 1) l
                     (js_round (tankSize e - arrivalFuel e s l)) (tankSize e) (arrivalFuel e s l)],
                usedStations := insert (stationId l) (usedStations s),
                currentFuel := tankSize e,
                currentPosition := distanceFromStart l \<rparr>)"
    using assms
    by (simp add: loopBody_def borderPriority_def Let_def arrivalFuel_def max_def)
next
  show "sorted (map distanceFromStart (stationsAlongRoute e))
          \<and> stateBorderCrossings e = findStateBorderCrossings (stationsAlongRoute e) fullTankStates
        \<longrightarrow> distanceFromStart l \<le> borderDistance c"
    using nextBorderCrossing_mem [OF assms(2)] assms(3)
    by (auto dest: findStateBorderCrossings_before)
qed

theorem border_priority_witness:
  "0 < mpg (planEnv [stationN90, stationC100] 120 150 7)
   \<and> nextBorderCrossing (planEnv [stationN90, stationC100] 120 150 7) (initialSim 140)
     = Some (borderCrossing stationN90 stationC100)
   \<and> lastStationBeforeBorder (borderCrossing stationN90 stationC100) = Some stationN90
   \<and> 0 < distanceFromStart stationN90 - currentPosition (initialSim 140)
   \<and> distanceFromStart stationN90 - currentPosition (initialSim 140)
       \<le> usableRange (planEnv [stationN90, stationC100] 120 150 7) (initialSim 140)
   \<and> 0 < js_round (tankSize (planEnv [stationN90, stationC100] 120 150 7)
             - arrivalFuel (planEnv [stationN90, stationC100] 120 150 7) (initialSim 140) stationN90)
   \<and> targetFuelAtDestination (planEnv [stationN90, stationC100] 120 150 7)
       \<le> fuelAtDestination (planEnv [stationN90, stationC100] 120 150 7) (initialSim 140)
   \<and> sorted (map distanceFromStart (stationsAlongRoute (planEnv [stationN90, stationC100] 120 150 7)))
   \<and> fst (loopBody (planEnv [stationN90, stationC100] 120 150 7) (initialSim 140)) = BorderStop
   \<and> map (\<lambda>x. (stationId (station x), gallonsToAdd x, fillAmount x))
        (stopsSoFar (snd (loopBody (planEnv [stationN90, stationC100] 120 150 7) (initialSim 140))))
       = [(''csv-90'', 23, 150)]
   \<and> distanceFromStart stationN90 \<le> borderDistance (borderCrossing stationN90 stationC100)"
proof -
  let ?e = "planEnv [stationN90, stationC100] 120 150 7"
  have h0: "0 < mpg ?e"
    by code_simp
  have h1: "nextBorderCrossing ?e (initialSim 140) = Some (borderCrossing stationN90 stationC100)"
    by code_simp
  have h2: "lastStationBeforeBorder (borderCrossing stationN90 stationC100) = Some stationN90"
    by code_simp
  have h3: "0 < distanceFromStart stationN90 - currentPosition (initialSim 140)"
    by code_simp
  have h4: "distanceFromStart stationN90 - currentPosition (initialSim 140)
              \<le> usableRange ?e (initialSim 140)"
    by code_simp
  have h5: "0 < js_round (tankSize ?e - arrivalFuel ?e (initialSim 140) stationN90)"
    by code_simp
  have reach: "targetFuelAtDestination ?e \<le> fuelAtDestination ?e (initialSim 140)"
    by code_simp
  have srt: "sorted (map distanceFromStart (stationsAlongRoute ?e))"
    by code_simp
  have cr: "stateBorderCrossings ?e = findStateBorderCrossings (stationsAlongRoute ?e) fullTankStates"
    by (simp add: planEnv_def)
  have g: "js_round (tankSize ?e - arrivalFuel ?e (initialSim 140) stationN90) = 23"
    by code_simp
  have f: "js_round (tankSize ?e) = 150" "stopsSoFar (initialSim 140) = []"
    by code_simp+
  from border_priority [OF h0 h1 h2 h3 h4 h5] srt cr
  have "loopBody ?e (initialSim 140) =
          (BorderStop,
           (initialSim 140)\<lparr> stopsSoFar := stopsSoFar (initialSim 140) @
                  [createStopFromStation (length (stopsSoFar (initialSim 140)) + 1) stationN90
                     (js_round (tankSize ?e - arrivalFuel ?e (initialSim 140) stationN90)) (tankSize ?e)
                     (arrivalFuel ?e (initialSim 140) stationN90)],
                usedStations := insert (stationId stationN90) (usedStations (initialSim 140)),
                currentFuel := tankSize ?e,
                currentPosition := distanceFromStart stationN90 \<rparr>)"
    and le: "distanceFromStart stationN90 \<le> borderDistance (borderCrossing stationN90 stationC100)"
    by blast+
  note lb = this(1)
  have sid: "stationId stationN90 = ''csv-90''"
    by (simp add: stationN90_def)
  have b: "fst (loopBody ?e (initialSim 140)) = BorderStop"
    by (simp add: lb)
  have st: "map (\<lambda>x. (stationId (station x), gallonsToAdd x, fillAmount x))
           (stopsSoFar (snd (loopBody ?e (initialSim 140)))) = [(''csv-90'', 23, 150)]"
    by (simp add: lb g f sid)
  from h0 h1 h2 h3 h4 h5 reach srt b st le show ?thesis by blast
qed

text \<open>
  Two runs. With a full tank and the last station before the border 3 miles ahead, no stop
  is committed: less than half a gallon is missing on arrival. With the last station before
  the border 103 miles along the route and the first one behind it 100 miles along,
  in the order the corridor filter gives them (the nearer to the highway first), the stop
  is committed at mile 103, behind the border distance of 100.
\<close>

theorem border_priority_counterexample:
  "nextBorderCrossing (planEnv [stationN3, stationC100] 120 150 7) (initialSim 150)
     = Some (borderCrossing stationN3 stationC100)
   \<and> 0 < distanceFromStart stationN3 - currentPosition (initialSim 150)
   \<and> distanceFromStart stationN3 - currentPosition (initialSim 150)
       \<le> usableRange (planEnv [stationN3, stationC100] 120 150 7) (initialSim 150)
   \<and> stops (calculateFuelStopsFrom [stationN3, stationC100] 120 150 150 7) = []
   \<and> sortBy cmpRoute [stationC100far, stationN103] = [stationN103, stationC100far]
   \<and> map borderDistance (findStateBorderCrossings [stationN103, stationC100far] fullTankStates) = [100]
   \<and> map distanceFromStart
        (map station (stops (calculateFuelStopsFrom [stationN103, stationC100far] 300 100 150 7)))
       = [103]"
  by code_simp

section \<open>Selection policy\<close>










text \<open>Stations with and without a price, for the examples.\<close>

definition stationNoPrice :: station where
  "stationNoPrice = \<lparr> stationId = ''csv-7'', state = ''TX'', lat = 0, lng = 0, price = Undefined,
                      distanceFromStart = 50, distanceFromRoute = 1, routeIndex = 5 \<rparr>"

definition stationNullPrice :: station where
  "stationNullPrice = \<lparr> stationId = ''csv-8'', state = ''TX'', lat = 0, lng = 0, price = Null,
                        distanceFromStart = 50, distanceFromRoute = 1, routeIndex = 5 \<rparr>"

definition stationCheap :: station where
  "stationCheap = \<lparr> stationId = ''csv-9'', state = ''TX'', lat = 0, lng = 0, price = Num (290 / 100),
                    distanceFromStart = 60, distanceFromRoute = 1, routeIndex = 6 \<rparr>"





text \<open>
  A \<open>null\<close> price counts as 0, in the cheapest tier, ahead of a station at 2.90; and
  \<open>findAnyReachableStation\<close>, which reads \<open>a.price || 4\<close>, returns the station without a
  price.
\<close>

lemma missing_price_examples:
  "findBestStationInRange 0 100 [stationNullPrice, stationCheap] {} = Some stationNullPrice
   \<and> findAnyReachableStation 0 100 [stationNoPrice] {} = Some stationNoPrice"
  by code_simp

section \<open>Corridor filter: retained stations and their order\<close>





























end
